theory Spec2Isabelle
  imports Complex_Main "HOL-Library.AList"
begin

section \<open>Numbers, errors and the rounding helper of poly.py\<close>

text \<open>
  The bot computes with Python floats. A float is read here as a rational (type
  \<open>rat\<close>): comparisons are the code's, while sums, products, quotients and roundings
  are the exact ones, so binary rounding error is outside the model. Where a float result
  lies on the other side of a rounding tie than the exact one (0.47 / 0.02 is the float
  just below 23.5, 1.07 / 0.4 the float just below 2.675), the code and this reading
  compute different values. The properties proved below for every input rest on the
  comparisons and the control flow around these operations. In the evaluated examples a
  decimal such as 0.48 stands for the float that Python prints as 0.48, and no such tie
  occurs. Overflow to infinity and NaN are not modelled.
  Python integers are \<open>int\<close>. Exceptions are values of \<open>py_error\<close>; a function that
  can raise returns \<open>py_error + 'a\<close> with \<open>Inl\<close> for the exception.
\<close>

datatype py_error = ZeroDivisionError | KeyError | ValueError | InvalidOperation

text \<open>Float division \<open>a / b\<close>: Python raises on a zero divisor, HOL would return 0.\<close>

definition py_truediv :: "rat \<Rightarrow> rat \<Rightarrow> py_error + rat" where
  "py_truediv a b = (if b = 0 then Inl ZeroDivisionError else Inr (a / b))"

text \<open>The builtin \<open>round(x)\<close> with one argument: nearest integer, a tie goes to the even one.\<close>

definition py_round :: "rat \<Rightarrow> int" where
  "py_round x =
     (let f = \<lfloor>x\<rfloor>; d = x - of_int f
      in if d < 1 / 2 then f
         else if 1 / 2 < d then f + 1
         else if even f then f else f + 1)"

text \<open>The builtin \<open>round(x, ndigits)\<close>: the same rule at \<open>ndigits\<close> decimal places.\<close>

definition py_round_ndigits :: "rat \<Rightarrow> nat \<Rightarrow> rat" where
  "py_round_ndigits x ndigits = of_int (py_round (x * 10 ^ ndigits)) / 10 ^ ndigits"

text \<open>
  \<open>Decimal.quantize(q, rounding=ROUND_HALF_UP)\<close> where \<open>q\<close> has \<open>n\<close> decimal places:
  nearest multiple of \<open>10^-n\<close>, a tie goes away from zero. The result is the integer
  \<open>coefficient\<close> scaled by \<open>10^-n\<close>; under the default decimal context, whose precision
  is 28 digits, a coefficient of more than 28 digits raises \<open>InvalidOperation\<close>.
\<close>

definition quantize_half_up :: "nat \<Rightarrow> rat \<Rightarrow> py_error + rat" where
  "quantize_half_up n x =
     (let coefficient = \<lfloor>\<bar>x\<bar> * 10 ^ n + 1 / 2\<rfloor>
      in if coefficient \<ge> 10 ^ 28 then Inl InvalidOperation
         else Inr ((if 0 \<le> x then 1 else - 1) * of_int coefficient / 10 ^ n))"

text \<open>
  \<open>round_price(price, precision, grid_spacing)\<close>, poly.py lines 25-38. The quantum is
  \<open>Decimal(10) ** -precision\<close>; for \<open>precision \<le> 0\<close> that power is an integer with
  exponent 0, so the number of decimal places kept is \<open>nat precision\<close>.
\<close>

definition round_price :: "rat \<Rightarrow> int \<Rightarrow> rat \<Rightarrow> py_error + rat" where
  "round_price price precision grid_spacing =
     (case py_truediv price grid_spacing of
        Inl e \<Rightarrow> Inl e
      | Inr q \<Rightarrow>
          (let rounded = of_int (py_round q) * grid_spacing
           in quantize_half_up (nat precision) rounded))"

section \<open>The bot object\<close>

datatype side = BUY | SELL

text \<open>
  The three dictionaries of the code that carry a side, a price and a size: an entry of
  \<open>active_orders\<close> (with its timestamp), a reported fill (with its value) and a target
  grid order (with its level). The field \<open>size\<close> is named \<open>size_sh\<close> here.
\<close>

record quote =
  side :: side
  price :: rat
  size_sh :: rat

record tracked_order = quote +
  timestamp :: rat

record filled_order = quote +
  "value" :: rat

record grid_order = quote +
  level :: int

text \<open>
  The fields of \<open>PolymarketGridBot\<close> that the planner and the reconciler read or write.
  \<open>active_orders\<close> is a Python dict, kept as an association list in insertion order;
  its keys are distinct in every dict. The client, the token id, \<open>min_spread\<close>,
  \<open>fee_rate_bps\<close>, \<open>avg_buy_price\<close> and the market info take no part in what follows.
\<close>

record bot =
  grid_levels :: int
  grid_spacing :: rat
  order_size_usd :: rat
  max_position_usd :: rat
  min_order_size :: rat
  max_order_size :: rat
  range_min :: rat
  range_max :: rat
  price_precision :: int
  active_orders :: "(string \<times> tracked_order) list"
  position_yes :: rat
  position_no :: rat
  realized_pnl :: rat
  total_volume :: rat

text \<open>
  What the exchange client returns for an open order: an object with an \<open>id\<close> attribute,
  or a dict that is indexed with the key \<open>id\<close>.
\<close>

datatype exchange_order = OrderObject string | OrderDict "(string \<times> string) list"

section \<open>Position ledger (poly.py lines 317-363)\<close>

definition get_current_positions :: "bot \<Rightarrow> rat \<times> rat" where
  "get_current_positions b = (position_yes b, position_no b)"

definition calculate_position_value :: "bot \<Rightarrow> rat \<Rightarrow> rat" where
  "calculate_position_value b mid_price = position_yes b * mid_price"

definition can_place_order :: "bot \<Rightarrow> side \<Rightarrow> rat \<Rightarrow> bool" where
  "can_place_order b sd mid_price =
     (let position_value = calculate_position_value b mid_price
      in case sd of
           BUY \<Rightarrow> if position_value \<ge> max_position_usd b then False else True
         | SELL \<Rightarrow>
             if position_yes b \<le> 0 then False
             else if position_value \<le> - max_position_usd b then False
             else True)"

definition calculate_order_size :: "bot \<Rightarrow> rat \<Rightarrow> rat" where
  "calculate_order_size b mid_price =
     (let position_value = \<bar>calculate_position_value b mid_price\<bar>
      in if position_value \<ge> max_position_usd b then 0 else order_size_usd b)"

section \<open>Reconciliation (poly.py lines 656-697)\<close>

text \<open>The first loop of \<open>update_active_orders\<close>: collect the ids the exchange reports.\<close>

fun collect_open_ids :: "exchange_order list \<Rightarrow> string set \<Rightarrow> py_error + string set" where
  "collect_open_ids [] open_order_ids = Inr open_order_ids"
| "collect_open_ids (OrderObject i # rest) open_order_ids =
     collect_open_ids rest (insert i open_order_ids)"
| "collect_open_ids (OrderDict d # rest) open_order_ids =
     (case map_of d ''id'' of
        None \<Rightarrow> Inl KeyError
      | Some i \<Rightarrow> collect_open_ids rest (insert i open_order_ids))"

text \<open>
  The second loop, over the snapshot \<open>tracked_ids\<close> of the keys: an id that the exchange
  no longer reports is booked as a fill and deleted from the dict.
\<close>

fun fill_loop ::
  "string set \<Rightarrow> string list \<Rightarrow> bot \<Rightarrow> filled_order list \<Rightarrow> py_error + (bot \<times> filled_order list)"
where
  "fill_loop open_order_ids [] b filled_orders = Inr (b, filled_orders)"
| "fill_loop open_order_ids (order_id # rest) b filled_orders =
     (if order_id \<notin> open_order_ids then
        (case map_of (active_orders b) order_id of
           None \<Rightarrow> Inl KeyError
         | Some order \<Rightarrow>
             (let order_value = size_sh order * price order;
                  filled_orders' = filled_orders @
                    [\<lparr>side = side order, price = price order, size_sh = size_sh order,
                      value = order_value\<rparr>];
                  b1 = (case side order of
                          BUY \<Rightarrow> b\<lparr>position_yes := position_yes b + size_sh order\<rparr>
                        | SELL \<Rightarrow> b\<lparr>position_yes := position_yes b - size_sh order\<rparr>);
                  b2 = b1\<lparr>total_volume := total_volume b1 + order_value\<rparr>;
                  b3 = b2\<lparr>active_orders := AList.delete order_id (active_orders b2)\<rparr>
              in fill_loop open_order_ids rest b3 filled_orders'))
      else fill_loop open_order_ids rest b filled_orders)"

text \<open>
  \<open>update_active_orders\<close>; the list returned by \<open>get_open_orders\<close> is the argument
  \<open>open_orders\<close>.
\<close>

definition update_active_orders ::
  "bot \<Rightarrow> exchange_order list \<Rightarrow> py_error + (bot \<times> filled_order list)"
where
  "update_active_orders b open_orders =
     (case collect_open_ids open_orders {} of
        Inl e \<Rightarrow> Inl e
      | Inr open_order_ids \<Rightarrow> fill_loop open_order_ids (map fst (active_orders b)) b [])"

section \<open>Construction (poly.py lines 51-176)\<close>

text \<open>
  The constructor compares \<open>price_precision\<close> with
  \<open>len(str(grid_spacing).split('.')[-1])\<close>. The string \<open>str(grid_spacing)\<close>, Python's
  shortest printing of the float (\<open>0.02\<close>, \<open>1e-10\<close>), is the argument \<open>spacing_str\<close>;
  its last field is what follows the last dot, or the whole string when it has no dot.
\<close>

definition last_dot_field :: "string \<Rightarrow> string" where
  "last_dot_field str = rev (takeWhile (\<lambda>c. c \<noteq> CHR ''.'') (rev str))"

definition init_bot ::
  "int \<Rightarrow> rat \<Rightarrow> rat \<Rightarrow> rat \<Rightarrow> rat \<Rightarrow> rat \<Rightarrow> rat \<Rightarrow> rat \<Rightarrow> int \<Rightarrow> string \<Rightarrow> py_error + bot"
where
  "init_bot g_levels g_spacing size_usd max_pos_usd min_size max_size r_min r_max precision
     spacing_str =
     (if g_spacing \<le> 0 \<or> g_spacing \<ge> 1 then Inl ValueError
      else if size_usd \<le> 0 then Inl ValueError
      else if g_levels \<le> 0 then Inl ValueError
      else if max_pos_usd \<le> 0 then Inl ValueError
      else if \<not> (0 < r_min \<and> r_min < 1) then Inl ValueError
      else if \<not> (0 < r_max \<and> r_max < 1) then Inl ValueError
      else if r_min \<ge> r_max then Inl ValueError
      else
        (let min_precision_needed = int (length (last_dot_field spacing_str))
         in if precision < min_precision_needed then Inl ValueError
            else Inr \<lparr>grid_levels = g_levels, grid_spacing = g_spacing,
                      order_size_usd = size_usd, max_position_usd = max_pos_usd,
                      min_order_size = min_size, max_order_size = max_size,
                      range_min = r_min, range_max = r_max, price_precision = precision,
                      active_orders = [], position_yes = 0, position_no = 0,
                      realized_pnl = 0, total_volume = 0\<rparr>))"

section \<open>Grid planner (poly.py lines 365-483)\<close>

text \<open>
  The BUY loop. \<open>continue\<close> is the recursive call on the remaining indices, \<open>break\<close>
  returns the accumulated price set and order list at once.
\<close>

fun buy_loop ::
  "bot \<Rightarrow> rat \<Rightarrow> rat \<Rightarrow> rat \<Rightarrow> int list \<Rightarrow> rat set \<Rightarrow> grid_order list
   \<Rightarrow> py_error + (rat set \<times> grid_order list)"
where
  "buy_loop b mid_price size_usd base_price [] placed_prices orders = Inr (placed_prices, orders)"
| "buy_loop b mid_price size_usd base_price (i # rest) placed_prices orders =
     (case round_price (base_price - of_int i * grid_spacing b) (price_precision b)
             (grid_spacing b) of
        Inl e \<Rightarrow> Inl e
      | Inr px \<Rightarrow>
          if px < range_min b \<or> px \<ge> mid_price then
            buy_loop b mid_price size_usd base_price rest placed_prices orders
          else if px < 1 / 100 then
            buy_loop b mid_price size_usd base_price rest placed_prices orders
          else if px \<in> placed_prices then
            buy_loop b mid_price size_usd base_price rest placed_prices orders
          else if \<not> can_place_order b BUY mid_price then
            Inr (insert px placed_prices, orders)
          else
            (case py_truediv size_usd px of
               Inl e \<Rightarrow> Inl e
             | Inr sz \<Rightarrow>
                 if sz < min_order_size b then
                   buy_loop b mid_price size_usd base_price rest (insert px placed_prices) orders
                 else
                   buy_loop b mid_price size_usd base_price rest (insert px placed_prices)
                     (orders @
                       [\<lparr>side = BUY, price = px,
                         size_sh = py_round_ndigits
                           (if sz > max_order_size b then max_order_size b else sz) 2,
                         level = - i\<rparr>])))"

text \<open>The SELL loop, over the same price set.\<close>

fun sell_loop ::
  "bot \<Rightarrow> rat \<Rightarrow> rat \<Rightarrow> rat \<Rightarrow> int list \<Rightarrow> rat set \<Rightarrow> grid_order list
   \<Rightarrow> py_error + (rat set \<times> grid_order list)"
where
  "sell_loop b mid_price size_usd base_price [] placed_prices orders = Inr (placed_prices, orders)"
| "sell_loop b mid_price size_usd base_price (i # rest) placed_prices orders =
     (case round_price (base_price + of_int i * grid_spacing b) (price_precision b)
             (grid_spacing b) of
        Inl e \<Rightarrow> Inl e
      | Inr px \<Rightarrow>
          if px > range_max b \<or> px \<le> mid_price then
            sell_loop b mid_price size_usd base_price rest placed_prices orders
          else if px > 99 / 100 then
            sell_loop b mid_price size_usd base_price rest placed_prices orders
          else if px \<in> placed_prices then
            sell_loop b mid_price size_usd base_price rest placed_prices orders
          else if \<not> can_place_order b SELL mid_price then
            Inr (insert px placed_prices, orders)
          else
            (case py_truediv size_usd px of
               Inl e \<Rightarrow> Inl e
             | Inr sz \<Rightarrow>
                 if sz < min_order_size b then
                   sell_loop b mid_price size_usd base_price rest (insert px placed_prices) orders
                 else
                   sell_loop b mid_price size_usd base_price rest (insert px placed_prices)
                     (orders @
                       [\<lparr>side = SELL, price = px,
                         size_sh = py_round_ndigits
                           (if sz > max_order_size b then max_order_size b else sz) 2,
                         level = i\<rparr>])))"

text \<open>The start of each walk: the grid line next to the mid price, moved off it.\<close>

definition buy_base :: "bot \<Rightarrow> rat \<Rightarrow> py_error + rat" where
  "buy_base b mid_price =
     (case round_price mid_price (price_precision b) (grid_spacing b) of
        Inl e \<Rightarrow> Inl e
      | Inr base_price \<Rightarrow>
          Inr (if base_price \<ge> mid_price then base_price - grid_spacing b else base_price))"

definition sell_base :: "bot \<Rightarrow> rat \<Rightarrow> py_error + rat" where
  "sell_base b mid_price =
     (case round_price mid_price (price_precision b) (grid_spacing b) of
        Inl e \<Rightarrow> Inl e
      | Inr base_price \<Rightarrow>
          Inr (if base_price \<le> mid_price then base_price + grid_spacing b else base_price))"

text \<open>\<open>range(grid_levels)\<close> is the integer interval \<open>[0..grid_levels - 1]\<close>.\<close>

definition generate_range_grid_orders :: "bot \<Rightarrow> rat \<Rightarrow> py_error + grid_order list" where
  "generate_range_grid_orders b mid_price =
     (let size_usd = calculate_order_size b mid_price
      in if size_usd = 0 then Inr []
         else
           (case buy_base b mid_price of
              Inl e \<Rightarrow> Inl e
            | Inr base_b \<Rightarrow>
                (case buy_loop b mid_price size_usd base_b [0..grid_levels b - 1] {} [] of
                   Inl e \<Rightarrow> Inl e
                 | Inr (placed_prices, orders) \<Rightarrow>
                     (case sell_base b mid_price of
                        Inl e \<Rightarrow> Inl e
                      | Inr base_s \<Rightarrow>
                          (case sell_loop b mid_price size_usd base_s [0..grid_levels b - 1]
                                  placed_prices orders of
                             Inl e \<Rightarrow> Inl e
                           | Inr (placed_prices', orders') \<Rightarrow> Inr orders')))))"

text \<open>The price that iteration \<open>i\<close> of the loop of side \<open>sd\<close> computes.\<close>

definition rung_price :: "bot \<Rightarrow> rat \<Rightarrow> side \<Rightarrow> int \<Rightarrow> py_error + rat" where
  "rung_price b mid_price sd i =
     (case sd of
        BUY \<Rightarrow>
          (case buy_base b mid_price of
             Inl e \<Rightarrow> Inl e
           | Inr base_b \<Rightarrow>
               round_price (base_b - of_int i * grid_spacing b) (price_precision b)
                 (grid_spacing b))
      | SELL \<Rightarrow>
          (case sell_base b mid_price of
             Inl e \<Rightarrow> Inl e
           | Inr base_s \<Rightarrow>
               round_price (base_s + of_int i * grid_spacing b) (price_precision b)
                 (grid_spacing b)))"

section \<open>Placement, cancellation and the cycle (poly.py lines 485-568, 712-811)\<close>

text \<open>
  \<open>place_order\<close> makes at most two attempts. \<open>r1\<close> and \<open>r2\<close> are what the exchange
  answers to the first and to the second attempt: \<open>Some oid\<close> for a response carrying an
  \<open>orderID\<close>, \<open>None\<close> for any other response or a raised exception. \<open>now\<close> is the
  clock reading stored with a tracked order. A dict assignment is \<open>AList.update\<close>.
\<close>

definition place_order ::
  "bot \<Rightarrow> side \<Rightarrow> rat \<Rightarrow> rat \<Rightarrow> rat \<Rightarrow> string option \<Rightarrow> string option \<Rightarrow> bot \<times> string option"
where
  "place_order b sd px sz now r1 r2 =
     (if px \<le> 0 \<or> px \<ge> 1 then (b, None)
      else if sz \<le> 0 then (b, None)
      else
        (case (case r1 of Some oid \<Rightarrow> Some oid | None \<Rightarrow> r2) of
           Some order_id \<Rightarrow>
             (b\<lparr>active_orders :=
                  AList.update order_id
                    \<lparr>side = sd, price = px, size_sh = sz, timestamp = now\<rparr>
                    (active_orders b)\<rparr>,
              Some order_id)
         | None \<Rightarrow> (b, None)))"

text \<open>
  \<open>cancel_order\<close>: the client call succeeds, or raises with a message that names the
  order as gone (\<open>not found\<close>, \<open>already\<close>), or raises with another message.
\<close>

datatype cancel_outcome = Cancelled | AlreadyGone | CancelFailed

definition cancel_order :: "bot \<Rightarrow> string \<Rightarrow> cancel_outcome \<Rightarrow> bot" where
  "cancel_order b order_id outcome =
     (case outcome of
        Cancelled \<Rightarrow> b\<lparr>active_orders := AList.delete order_id (active_orders b)\<rparr>
      | AlreadyGone \<Rightarrow> b\<lparr>active_orders := AList.delete order_id (active_orders b)\<rparr>
      | CancelFailed \<Rightarrow> b)"

text \<open>The position refresh of \<open>run_cycle\<close>, lines 736-744.\<close>

definition refresh_position :: "bot \<Rightarrow> bot" where
  "refresh_position b =
     (case get_current_positions b of (api_position, _) \<Rightarrow> b\<lparr>position_yes := api_position\<rparr>)"

text \<open>A target order is missing when no tracked order of its side has its price.\<close>

definition missing_orders :: "bot \<Rightarrow> grid_order list \<Rightarrow> grid_order list" where
  "missing_orders b target_grid =
     (let active_buy_prices =
            set (map price (filter (\<lambda>order. side order = BUY) (map snd (active_orders b))));
          active_sell_prices =
            set (map price (filter (\<lambda>order. side order \<noteq> BUY) (map snd (active_orders b))))
      in filter (\<lambda>target_order.
           case side target_order of
             BUY \<Rightarrow> price target_order \<notin> active_buy_prices
           | SELL \<Rightarrow> price target_order \<notin> active_sell_prices) target_grid)"

text \<open>The placement loop; \<open>responses\<close> holds the two exchange answers for each order in turn.\<close>

fun place_all ::
  "bot \<Rightarrow> grid_order list \<Rightarrow> (string option \<times> string option) list \<Rightarrow> rat \<Rightarrow> bot"
where
  "place_all b [] responses now = b"
| "place_all b (order # rest) responses now =
     (let (r1, r2) = (case responses of [] \<Rightarrow> (None, None) | r # _ \<Rightarrow> r);
          (b', result) = place_order b (side order) (price order) (size_sh order) now r1 r2
      in place_all b' rest (tl responses) now)"

text \<open>
  \<open>run_cycle\<close> on the fetched price \<open>current_price\<close> and the exchange's open-order list.
  An exception of \<open>update_active_orders\<close> can only come from its first loop, before any
  field is written, and is swallowed; one of the planner ends the cycle.
\<close>

definition run_cycle ::
  "bot \<Rightarrow> rat option \<Rightarrow> exchange_order list \<Rightarrow> (string option \<times> string option) list \<Rightarrow> rat
   \<Rightarrow> bot"
where
  "run_cycle b current_price open_orders responses now =
     (case current_price of
        None \<Rightarrow> b
      | Some mid_price \<Rightarrow>
          if mid_price \<le> 0 \<or> mid_price \<ge> 1 then b
          else
            (let b1 = (case update_active_orders b open_orders of
                         Inl e \<Rightarrow> b
                       | Inr (b', filled_orders) \<Rightarrow> b');
                 b2 = refresh_position b1
             in case generate_range_grid_orders b2 mid_price of
                  Inl e \<Rightarrow> b2
                | Inr target_grid \<Rightarrow> place_all b2 (missing_orders b2 target_grid) responses now))"

section \<open>Notions used to state the properties\<close>

text \<open>The fill reported for a tracked order, and the change it makes to the position.\<close>

definition fill_of :: "tracked_order \<Rightarrow> filled_order" where
  "fill_of order =
     \<lparr>side = side order, price = price order, size_sh = size_sh order,
      value = size_sh order * price order\<rparr>"

definition signed_size :: "tracked_order \<Rightarrow> rat" where
  "signed_size order = (case side order of BUY \<Rightarrow> size_sh order | SELL \<Rightarrow> - size_sh order)"

text \<open>The tracked orders whose id is not among \<open>ids\<close>, in dict order.\<close>

definition vanished :: "string set \<Rightarrow> (string \<times> tracked_order) list \<Rightarrow> tracked_order list" where
  "vanished ids al = map snd (filter (\<lambda>kv. fst kv \<notin> ids) al)"

text \<open>
  A target order built by either loop for the price \<open>px\<close> and the raw size \<open>sz\<close>: the
  size is cut at \<open>max_order_size\<close> and rounded to two decimals by \<open>round(size, 2)\<close>.
\<close>

definition sized_order :: "bot \<Rightarrow> side \<Rightarrow> rat \<Rightarrow> rat \<Rightarrow> int \<Rightarrow> grid_order" where
  "sized_order b sd px sz lv =
     \<lparr>side = sd, price = px,
      size_sh = py_round_ndigits (if sz > max_order_size b then max_order_size b else sz) 2,
      level = lv\<rparr>"

text \<open>The tests a price passes before the BUY loop, or the SELL loop, looks at duplicates.\<close>

definition buy_passes :: "bot \<Rightarrow> rat \<Rightarrow> rat \<Rightarrow> bool" where
  "buy_passes b mid_price px \<longleftrightarrow> range_min b \<le> px \<and> px < mid_price \<and> 1 / 100 \<le> px"

definition sell_passes :: "bot \<Rightarrow> rat \<Rightarrow> rat \<Rightarrow> bool" where
  "sell_passes b mid_price px \<longleftrightarrow> px \<le> range_max b \<and> mid_price < px \<and> px \<le> 99 / 100"

text \<open>
  What holds of an order \<open>ord\<close> appended by a loop run with \<open>size_usd\<close>: its price
  passed the tests of its side, and its size is the rounded, cut quotient, which was not
  below \<open>min_order_size\<close> before rounding.
\<close>

definition emitted_ok :: "bot \<Rightarrow> rat \<Rightarrow> rat \<Rightarrow> grid_order \<Rightarrow> bool" where
  "emitted_ok b mid_price size_usd ord \<longleftrightarrow>
     (case side ord of
        BUY \<Rightarrow> buy_passes b mid_price (price ord)
      | SELL \<Rightarrow> sell_passes b mid_price (price ord)) \<and>
     price ord \<noteq> 0 \<and>
     min_order_size b \<le> size_usd / price ord \<and>
     size_sh ord = py_round_ndigits (min (size_usd / price ord) (max_order_size b)) 2"


text \<open>
  \<open>ord\<close> comes from the first index of \<open>idxs\<close> whose price \<open>rp i\<close> is the price of
  \<open>ord\<close>: that index is \<open>idx ord\<close>, the price passed the tests, was not yet in
  \<open>placed\<close>, and no index before it in \<open>idxs\<close> computes the same price.
\<close>

definition first_rung ::
  "(int \<Rightarrow> py_error + rat) \<Rightarrow> (rat \<Rightarrow> bool) \<Rightarrow> (grid_order \<Rightarrow> int) \<Rightarrow> int list \<Rightarrow> rat set
   \<Rightarrow> grid_order \<Rightarrow> bool"
where
  "first_rung rp passes idx idxs placed ord \<longleftrightarrow>
     (\<exists>pre post. idxs = pre @ idx ord # post \<and> rp (idx ord) = Inr (price ord) \<and>
        passes (price ord) \<and> price ord \<notin> placed \<and>
        (\<forall>j \<in> set pre. rp j \<noteq> Inr (price ord)))"

section \<open>Concrete states for the examples\<close>

text \<open>
  A bot as the constructor leaves it, with three levels per side and the default values
  of the other parameters, and the same bot tracking one BUY order of 20 shares at 0.48.
\<close>

definition initial_bot :: bot where
  "initial_bot = \<lparr>grid_levels = 3, grid_spacing = 1/50, order_size_usd = 10,
                max_position_usd = 100, min_order_size = 1/10,
                max_order_size = 10000, range_min = 3/10, range_max = 7/10,
                price_precision = 3, active_orders = [], position_yes = 0,
                position_no = 0, realized_pnl = 0, total_volume = 0\<rparr>"

definition one_buy_bot :: bot where
  "one_buy_bot = initial_bot\<lparr>active_orders :=
      [(''o1'', \<lparr>side = BUY, price = 12/25, size_sh = 20, timestamp = 0\<rparr>)]\<rparr>"

text \<open>The same bot holding 250 shares, worth 125 USD at a mid price of 0.50.\<close>

definition loaded_bot :: bot where
  "loaded_bot = initial_bot\<lparr>position_yes := 250\<rparr>"

text \<open>The same bot holding 10 shares, and one whose \<open>min_order_size\<close> is 20.833.\<close>

definition holding_bot :: bot where
  "holding_bot = initial_bot\<lparr>position_yes := 10\<rparr>"

definition tight_bot :: bot where
  "tight_bot = initial_bot\<lparr>min_order_size := 20833 / 1000\<rparr>"

text \<open>
  One whose \<open>max_order_size\<close> is 20.826, and one with the spacing \<open>1e-10\<close> at five
  decimals of precision, which the constructor accepts because \<open>str(1e-10)\<close> has five
  characters; there every rung next to the mid price rounds to the same price.
\<close>

definition capped_bot :: bot where
  "capped_bot = initial_bot\<lparr>max_order_size := 20826 / 1000\<rparr>"


text \<open>The rungs of the example: mid price 0.50, spacing 0.02, three levels, 10 USD each.\<close>

definition buy_rungs :: "grid_order list" where
  "buy_rungs =
     [\<lparr>side = BUY, price = 12 / 25, size_sh = 2083 / 100, level = 0\<rparr>,
      \<lparr>side = BUY, price = 23 / 50, size_sh = 1087 / 50, level = - 1\<rparr>,
      \<lparr>side = BUY, price = 11 / 25, size_sh = 2273 / 100, level = - 2\<rparr>]"

definition sell_rungs :: "grid_order list" where
  "sell_rungs =
     [\<lparr>side = SELL, price = 13 / 25, size_sh = 1923 / 100, level = 0\<rparr>,
      \<lparr>side = SELL, price = 27 / 50, size_sh = 463 / 25, level = 1\<rparr>,
      \<lparr>side = SELL, price = 14 / 25, size_sh = 893 / 50, level = 2\<rparr>]"

text \<open>
  Four cycles at mid price 0.50 from the constructed bot. Cycle 1: nothing is open, the
  three BUY rungs are placed as \<open>b1\<close>, \<open>b2\<close>, \<open>b3\<close>. Cycle 2: \<open>b1\<close> is gone from the
  exchange, so 20.83 shares are booked; the BUY at 0.48 is placed again as \<open>b4\<close>, the SELL
  at 0.52 as \<open>s1\<close>, and the exchange refuses the two other SELL rungs. Cycle 3: \<open>s1\<close> is
  gone (cancelled on the exchange side, which the bot books like a fill), 1.60 shares
  remain booked, and the SELL at 0.52 is placed again as \<open>s4\<close>. Cycle 4: \<open>s4\<close> is gone.
\<close>

definition after_cycle1 :: bot where
  "after_cycle1 =
     run_cycle initial_bot (Some (1 / 2)) []
       [(Some ''b1'', None), (Some ''b2'', None), (Some ''b3'', None)] 0"

definition after_cycle2 :: bot where
  "after_cycle2 =
     run_cycle after_cycle1 (Some (1 / 2)) [OrderObject ''b2'', OrderObject ''b3'']
       [(Some ''b4'', None), (Some ''s1'', None), (None, None), (None, None)] 60"

definition after_cycle3 :: bot where
  "after_cycle3 =
     run_cycle after_cycle2 (Some (1 / 2))
       [OrderObject ''b2'', OrderObject ''b3'', OrderObject ''b4'']
       [(Some ''s4'', None), (None, None), (None, None)] 120"

definition after_cycle4 :: bot where
  "after_cycle4 =
     run_cycle after_cycle3 (Some (1 / 2))
       [OrderObject ''b2'', OrderObject ''b3'', OrderObject ''b4''] [] 180"

section \<open>Reconciliation: closed form of the loops\<close>

lemma collect_open_ids_set:
  "collect_open_ids open_orders acc = Inr ids \<Longrightarrow>
   ids = acc \<union> {i. OrderObject i \<in> set open_orders}
         \<union> {i. \<exists>d. OrderDict d \<in> set open_orders \<and> map_of d ''id'' = Some i}"
proof (induction open_orders acc rule: collect_open_ids.induct)
  case (1 open_order_ids)
  then show ?case by simp
next
  case (2 i rest open_order_ids)
  then show ?case by auto
next
  case (3 d rest open_order_ids)
  then show ?case by (auto split: option.splits)
qed

lemma fill_loop_closed:
  "distinct (map fst todo) \<Longrightarrow>
   (\<forall>kv \<in> set todo. map_of (active_orders b) (fst kv) = Some (snd kv)) \<Longrightarrow>
   fill_loop ids (map fst todo) b fs =
     Inr (b\<lparr>active_orders :=
              filter (\<lambda>kv. \<not> (fst kv \<in> fst ` set todo \<and> fst kv \<notin> ids)) (active_orders b),
            position_yes := position_yes b + sum_list (map signed_size (vanished ids todo)),
            total_volume := total_volume b
               + sum_list (map (\<lambda>order. size_sh order * price order) (vanished ids todo))\<rparr>,
          fs @ map fill_of (vanished ids todo))"
proof (induction todo arbitrary: b fs)
  case Nil
  then show ?case by (simp add: vanished_def)
next
  case (Cons kv todo)
  obtain k v where kv: "kv = (k, v)" by (cases kv)
  have look: "map_of (active_orders b) k = Some v" using Cons.prems(2) kv by simp
  have dist: "distinct (map fst todo)" and knot: "k \<notin> fst ` set todo"
    using Cons.prems(1) kv by auto
  show ?case
  proof (cases "k \<in> ids")
    case True
    have "fill_loop ids (map fst (kv # todo)) b fs = fill_loop ids (map fst todo) b fs"
      using True kv by simp
    also have "\<dots> = Inr (b\<lparr>active_orders :=
              filter (\<lambda>kv. \<not> (fst kv \<in> fst ` set todo \<and> fst kv \<notin> ids)) (active_orders b),
            position_yes := position_yes b + sum_list (map signed_size (vanished ids todo)),
            total_volume := total_volume b
               + sum_list (map (\<lambda>order. size_sh order * price order) (vanished ids todo))\<rparr>,
          fs @ map fill_of (vanished ids todo))"
      using Cons.IH[OF dist, of b fs] Cons.prems(2) by simp
    also have "filter (\<lambda>kv. \<not> (fst kv \<in> fst ` set todo \<and> fst kv \<notin> ids)) (active_orders b)
        = filter (\<lambda>kv'. \<not> (fst kv' \<in> fst ` set (kv # todo) \<and> fst kv' \<notin> ids)) (active_orders b)"
      using True kv by (intro filter_cong) auto
    also have "vanished ids todo = vanished ids (kv # todo)"
      using True kv by (simp add: vanished_def)
    finally show ?thesis .
  next
    case False
    let ?b3 = "(case side v of
                  BUY \<Rightarrow> b\<lparr>position_yes := position_yes b + size_sh v\<rparr>
                | SELL \<Rightarrow> b\<lparr>position_yes := position_yes b - size_sh v\<rparr>)
               \<lparr>total_volume := total_volume b + size_sh v * price v,
                active_orders := AList.delete k (active_orders b)\<rparr>"
    have step: "fill_loop ids (map fst (kv # todo)) b fs
        = fill_loop ids (map fst todo) ?b3 (fs @ [fill_of v])"
      using False kv look by (cases "side v") (simp_all add: fill_of_def Let_def)
    have pre: "\<forall>kv' \<in> set todo. map_of (active_orders ?b3) (fst kv') = Some (snd kv')"
      using Cons.prems(2) knot by (cases "side v") (auto simp: delete_conv)
    have ao: "active_orders ?b3 = AList.delete k (active_orders b)"
      by (cases "side v") simp_all
    have py: "position_yes ?b3 = position_yes b + signed_size v"
      by (cases "side v") (simp_all add: signed_size_def)
    have tv: "total_volume ?b3 = total_volume b + size_sh v * price v"
      by (cases "side v") simp_all
    have van: "vanished ids (kv # todo) = v # vanished ids todo"
      using False kv by (simp add: vanished_def)
    have filt: "filter (\<lambda>kv. \<not> (fst kv \<in> fst ` set todo \<and> fst kv \<notin> ids)) (AList.delete k (active_orders b))
        = filter (\<lambda>kv'. \<not> (fst kv' \<in> fst ` set (kv # todo) \<and> fst kv' \<notin> ids)) (active_orders b)"
      using False kv unfolding AList.delete_eq filter_filter
      by (intro filter_cong) auto
    show ?thesis
      unfolding step Cons.IH[OF dist pre] ao py tv van filt
      by (cases "side v") (simp_all add: algebra_simps)
  qed
qed

lemma update_active_orders_closed:
  assumes "distinct (map fst (active_orders b))"
    and "collect_open_ids open_orders {} = Inr ids"
  shows "update_active_orders b open_orders =
     Inr (b\<lparr>active_orders := filter (\<lambda>kv. fst kv \<in> ids) (active_orders b),
            position_yes := position_yes b
               + sum_list (map signed_size (vanished ids (active_orders b))),
            total_volume := total_volume b
               + sum_list (map (\<lambda>order. size_sh order * price order)
                    (vanished ids (active_orders b)))\<rparr>,
          map fill_of (vanished ids (active_orders b)))"
proof -
  have look: "\<forall>kv \<in> set (active_orders b). map_of (active_orders b) (fst kv) = Some (snd kv)"
    using assms(1) by auto
  have filt: "filter (\<lambda>kv. fst kv \<in> fst ` set (active_orders b) \<longrightarrow> fst kv \<in> ids)
        (active_orders b)
      = filter (\<lambda>kv. fst kv \<in> ids) (active_orders b)"
    by (intro filter_cong) auto
  show ?thesis
    unfolding update_active_orders_def assms(2) fill_loop_closed[OF assms(1) look]
    by (simp add: filt)
qed

text \<open>
  The keys of \<open>active_orders\<close> stay distinct under every operation, as they do in a
  Python dict; the constructed bot starts with the empty dict.
\<close>

lemma place_order_distinct:
  "distinct (map fst (active_orders b)) \<Longrightarrow>
   distinct (map fst (active_orders (fst (place_order b sd px sz now r1 r2))))"
  by (simp add: place_order_def distinct_update split: option.splits)

lemma cancel_order_distinct:
  "distinct (map fst (active_orders b)) \<Longrightarrow>
   distinct (map fst (active_orders (cancel_order b order_id outcome)))"
  by (cases outcome) (simp_all add: cancel_order_def distinct_delete)

lemma update_active_orders_distinct:
  assumes "distinct (map fst (active_orders b))"
    and "update_active_orders b open_orders = Inr (b', fills)"
  shows "distinct (map fst (active_orders b'))"
proof -
  from assms(2) obtain ids where ids: "collect_open_ids open_orders {} = Inr ids"
    by (auto simp: update_active_orders_def split: sum.splits)
  from update_active_orders_closed[OF assms(1) ids] assms(2)
  have "active_orders b' = filter (\<lambda>kv. fst kv \<in> ids) (active_orders b)" by auto
  then show ?thesis using assms(1) by (simp add: distinct_map_filter)
qed

lemma place_all_distinct:
  "distinct (map fst (active_orders b)) \<Longrightarrow>
   distinct (map fst (active_orders (place_all b orders responses now)))"
proof (induction orders arbitrary: b responses)
  case Nil
  then show ?case by simp
next
  case (Cons order rest)
  obtain r1 r2 where r: "(case responses of [] \<Rightarrow> (None, None) | r # _ \<Rightarrow> r) = (r1, r2)"
    by (cases "case responses of [] \<Rightarrow> (None, None) | r # _ \<Rightarrow> r")
  obtain b' res where p:
    "place_order b (side order) (price order) (size_sh order) now r1 r2 = (b', res)"
    by (cases "place_order b (side order) (price order) (size_sh order) now r1 r2")
  have "distinct (map fst (active_orders b'))"
    using place_order_distinct[OF Cons.prems, of "side order" "price order" "size_sh order" now r1 r2] p
    by simp
  from Cons.IH[OF this] show ?case using r p by simp
qed

lemma run_cycle_distinct:
  assumes "distinct (map fst (active_orders b))"
  shows "distinct (map fst (active_orders (run_cycle b current_price open_orders responses now)))"
proof -
  define b1 where "b1 = (case update_active_orders b open_orders of
                           Inl e \<Rightarrow> b | Inr (b', filled_orders) \<Rightarrow> b')"
  have d1: "distinct (map fst (active_orders b1))"
    unfolding b1_def using assms update_active_orders_distinct[OF assms]
    by (auto split: sum.splits)
  have d2: "distinct (map fst (active_orders (refresh_position b1)))"
    using d1 by (simp add: refresh_position_def get_current_positions_def)
  show ?thesis
    using assms d2 place_all_distinct[OF d2]
    by (auto simp: run_cycle_def b1_def[symmetric] Let_def split: option.splits sum.splits)
qed

text \<open>
  C1 (as amended). Reconciliation only removes: after \<open>update_active_orders\<close> the
  tracked ids are the previously tracked ids that the exchange still reports. An id that
  the exchange reports and the bot never tracked is not added.
\<close>

theorem reconcile_keeps_reported_ids:
  assumes "distinct (map fst (active_orders b))"
    and "collect_open_ids open_orders {} = Inr ids"
  shows "\<exists>b' fills. update_active_orders b open_orders = Inr (b', fills)
           \<and> fst ` set (active_orders b') = fst ` set (active_orders b) \<inter> ids"
  using update_active_orders_closed[OF assms] by auto

text \<open>The amended C1 at a bot tracking \<open>o1\<close> while the exchange reports \<open>o2\<close>.\<close>

theorem reconcile_keeps_reported_ids_witness:
  "\<exists>b' fills. update_active_orders one_buy_bot [OrderObject ''o2''] = Inr (b', fills)
           \<and> fst ` set (active_orders b') = fst ` set (active_orders one_buy_bot) \<inter> {''o2''}"
  using reconcile_keeps_reported_ids[of one_buy_bot "[OrderObject ''o2'']" "{''o2''}"]
  by (simp add: one_buy_bot_def initial_bot_def)

text \<open>
  C1 as stated fails: the exchange reports the open order \<open>o2\<close>, the bot tracks nothing,
  and after reconciliation it still tracks nothing.
\<close>

theorem reconcile_completeness_counterexample:
  "collect_open_ids [OrderObject ''o2''] {} = Inr {''o2''}
   \<and> update_active_orders initial_bot [OrderObject ''o2''] = Inr (initial_bot, [])
   \<and> fst ` set (active_orders initial_bot) \<noteq> {''o2''}"
  by (simp add: update_active_orders_def initial_bot_def)

text \<open>
  C2. Every tracked order whose id the exchange no longer reports yields one fill with
  the order's side, price and size (and value size times price), in dict order; it is
  deleted from the dict; \<open>position_yes\<close> grows by its size if it is a BUY and shrinks by
  its size if it is a SELL; \<open>total_volume\<close> grows by size times price. Orders still
  reported stay as they are.
\<close>

theorem reconcile_fills:
  assumes "distinct (map fst (active_orders b))"
    and "collect_open_ids open_orders {} = Inr ids"
  shows "update_active_orders b open_orders =
     Inr (b\<lparr>active_orders := filter (\<lambda>kv. fst kv \<in> ids) (active_orders b),
            position_yes := position_yes b
               + sum_list (map signed_size (vanished ids (active_orders b))),
            total_volume := total_volume b
               + sum_list (map (\<lambda>order. size_sh order * price order)
                    (vanished ids (active_orders b)))\<rparr>,
          map fill_of (vanished ids (active_orders b)))"
  using assms by (rule update_active_orders_closed)

text \<open>
  The example of the specification: the tracked order BUY 20 at 0.48 is gone from the
  exchange, so the position grows by 20 and the fill BUY, 0.48, 20 is reported.
\<close>

theorem reconcile_fills_witness:
  "update_active_orders one_buy_bot [] =
     Inr (one_buy_bot\<lparr>active_orders := [], position_yes := 20, total_volume := 48 / 5\<rparr>,
          [\<lparr>side = BUY, price = 12 / 25, size_sh = 20, value = 48 / 5\<rparr>])"
  using reconcile_fills[of one_buy_bot "[]" "{}"]
  by (simp add: one_buy_bot_def initial_bot_def vanished_def signed_size_def fill_of_def)

section \<open>Position ledger properties\<close>

text \<open>
  C10. \<open>get_current_positions\<close> returns the tracked pair and reads nothing else, so the
  refresh step of \<open>run_cycle\<close> writes back the value \<open>position_yes\<close> already has.
\<close>

theorem position_refresh_is_identity:
  "get_current_positions b = (position_yes b, position_no b) \<and> refresh_position b = b"
  by (simp add: get_current_positions_def refresh_position_def)

text \<open>
  C3. When the absolute position value at the mid price reaches \<open>max_position_usd\<close>,
  the order size is 0 and the planner returns the empty list.
\<close>

theorem position_suppression:
  assumes "\<bar>position_yes b * mid_price\<bar> \<ge> max_position_usd b"
  shows "calculate_order_size b mid_price = 0 \<and> generate_range_grid_orders b mid_price = Inr []"
  using assms
  by (simp add: generate_range_grid_orders_def calculate_order_size_def
      calculate_position_value_def)

text \<open>C3 at 250 shares and mid price 0.50 against a cap of 100 USD.\<close>

theorem position_suppression_witness:
  "\<bar>position_yes loaded_bot * (1 / 2)\<bar> \<ge> max_position_usd loaded_bot
   \<and> calculate_order_size loaded_bot (1 / 2) = 0
   \<and> generate_range_grid_orders loaded_bot (1 / 2) = Inr []"
proof -
  have h: "\<bar>position_yes loaded_bot * (1 / 2)\<bar> \<ge> max_position_usd loaded_bot"
    by (simp add: loaded_bot_def initial_bot_def)
  from position_suppression[OF h] h show ?thesis by simp
qed

section \<open>The planner's loops, one iteration at a time\<close>

lemma buy_loop_Cons_cases:
  assumes "buy_loop b mid su base (i # rest) placed orders = Inr res"
  obtains
    (skip) px where
      "round_price (base - of_int i * grid_spacing b) (price_precision b) (grid_spacing b) = Inr px"
      "\<not> buy_passes b mid px \<or> px \<in> placed"
      "buy_loop b mid su base rest placed orders = Inr res"
  | (stop) px where
      "round_price (base - of_int i * grid_spacing b) (price_precision b) (grid_spacing b) = Inr px"
      "buy_passes b mid px" "px \<notin> placed"
      "\<not> can_place_order b BUY mid" "res = (insert px placed, orders)"
  | (small) px where
      "round_price (base - of_int i * grid_spacing b) (price_precision b) (grid_spacing b) = Inr px"
      "buy_passes b mid px" "px \<notin> placed"
      "can_place_order b BUY mid" "px \<noteq> 0" "su / px < min_order_size b"
      "buy_loop b mid su base rest (insert px placed) orders = Inr res"
  | (emit) px where
      "round_price (base - of_int i * grid_spacing b) (price_precision b) (grid_spacing b) = Inr px"
      "buy_passes b mid px" "px \<notin> placed"
      "can_place_order b BUY mid" "px \<noteq> 0" "min_order_size b \<le> su / px"
      "buy_loop b mid su base rest (insert px placed)
         (orders @ [sized_order b BUY px (su / px) (- i)]) = Inr res"
  using assms
  by (simp add: sized_order_def buy_passes_def py_truediv_def split: sum.splits if_splits)
     (auto simp: not_less)

lemma sell_loop_Cons_cases:
  assumes "sell_loop b mid su base (i # rest) placed orders = Inr res"
  obtains
    (skip) px where
      "round_price (base + of_int i * grid_spacing b) (price_precision b) (grid_spacing b) = Inr px"
      "\<not> sell_passes b mid px \<or> px \<in> placed"
      "sell_loop b mid su base rest placed orders = Inr res"
  | (stop) px where
      "round_price (base + of_int i * grid_spacing b) (price_precision b) (grid_spacing b) = Inr px"
      "sell_passes b mid px" "px \<notin> placed"
      "\<not> can_place_order b SELL mid" "res = (insert px placed, orders)"
  | (small) px where
      "round_price (base + of_int i * grid_spacing b) (price_precision b) (grid_spacing b) = Inr px"
      "sell_passes b mid px" "px \<notin> placed"
      "can_place_order b SELL mid" "px \<noteq> 0" "su / px < min_order_size b"
      "sell_loop b mid su base rest (insert px placed) orders = Inr res"
  | (emit) px where
      "round_price (base + of_int i * grid_spacing b) (price_precision b) (grid_spacing b) = Inr px"
      "sell_passes b mid px" "px \<notin> placed"
      "can_place_order b SELL mid" "px \<noteq> 0" "min_order_size b \<le> su / px"
      "sell_loop b mid su base rest (insert px placed)
         (orders @ [sized_order b SELL px (su / px) i]) = Inr res"
  using assms
  by (simp add: sized_order_def sell_passes_def py_truediv_def split: sum.splits if_splits)
     (auto simp: not_less)

lemma sized_order_sel [simp]:
  "side (sized_order b sd px sz lv) = sd"
  "price (sized_order b sd px sz lv) = px"
  "level (sized_order b sd px sz lv) = lv"
  "size_sh (sized_order b sd px sz lv) = py_round_ndigits (min sz (max_order_size b)) 2"
  by (simp_all add: sized_order_def min_def not_less)

lemma buy_loop_emitted:
  "buy_loop b mid su base idxs placed orders = Inr (placed', orders') \<Longrightarrow>
   ord \<in> set orders' \<Longrightarrow> ord \<in> set orders \<or> (side ord = BUY \<and> emitted_ok b mid su ord)"
proof (induction idxs arbitrary: placed orders)
  case Nil
  then show ?case by simp
next
  case (Cons i rest)
  from Cons.prems(1) show ?case
  proof (cases rule: buy_loop_Cons_cases)
    case (skip px)
    from Cons.IH[OF skip(3) Cons.prems(2)] show ?thesis .
  next
    case (stop px)
    with Cons.prems(2) show ?thesis by simp
  next
    case (small px)
    from Cons.IH[OF small(7) Cons.prems(2)] show ?thesis .
  next
    case (emit px)
    from Cons.IH[OF emit(7) Cons.prems(2)] emit(2,5,6) show ?thesis
      by (auto simp: emitted_ok_def)
  qed
qed

lemma sell_loop_emitted:
  "sell_loop b mid su base idxs placed orders = Inr (placed', orders') \<Longrightarrow>
   ord \<in> set orders' \<Longrightarrow> ord \<in> set orders \<or> (side ord = SELL \<and> emitted_ok b mid su ord)"
proof (induction idxs arbitrary: placed orders)
  case Nil
  then show ?case by simp
next
  case (Cons i rest)
  from Cons.prems(1) show ?case
  proof (cases rule: sell_loop_Cons_cases)
    case (skip px)
    from Cons.IH[OF skip(3) Cons.prems(2)] show ?thesis .
  next
    case (stop px)
    with Cons.prems(2) show ?thesis by simp
  next
    case (small px)
    from Cons.IH[OF small(7) Cons.prems(2)] show ?thesis .
  next
    case (emit px)
    from Cons.IH[OF emit(7) Cons.prems(2)] emit(2,5,6) show ?thesis
      by (auto simp: emitted_ok_def)
  qed
qed








lemma first_rung_skip:
  assumes "first_rung rp passes idx rest placed ord" and "rp i = Inr px"
    and "\<not> passes px \<or> px \<in> placed"
  shows "first_rung rp passes idx (i # rest) placed ord"
proof -
  from assms(1) obtain pre post where f:
    "rest = pre @ idx ord # post" "rp (idx ord) = Inr (price ord)" "passes (price ord)"
    "price ord \<notin> placed" "\<forall>j \<in> set pre. rp j \<noteq> Inr (price ord)"
    unfolding first_rung_def by blast
  have "px \<noteq> price ord" using assms(3) f(3,4) by auto
  then have "\<forall>j \<in> set (i # pre). rp j \<noteq> Inr (price ord)" using f(5) assms(2) by auto
  moreover have "i # rest = (i # pre) @ idx ord # post" using f(1) by simp
  ultimately show ?thesis unfolding first_rung_def using f(2,3,4) by blast
qed

lemma first_rung_insert:
  assumes "first_rung rp passes idx rest (insert px placed) ord" and "rp i = Inr px"
  shows "first_rung rp passes idx (i # rest) placed ord"
proof -
  from assms(1) obtain pre post where f:
    "rest = pre @ idx ord # post" "rp (idx ord) = Inr (price ord)" "passes (price ord)"
    "price ord \<notin> insert px placed" "\<forall>j \<in> set pre. rp j \<noteq> Inr (price ord)"
    unfolding first_rung_def by blast
  have "px \<noteq> price ord" and np: "price ord \<notin> placed" using f(4) by auto
  then have "\<forall>j \<in> set (i # pre). rp j \<noteq> Inr (price ord)" using f(5) assms(2) by auto
  moreover have "i # rest = (i # pre) @ idx ord # post" using f(1) by simp
  ultimately show ?thesis unfolding first_rung_def using f(2,3) np by blast
qed

lemma first_rung_here:
  assumes "rp i = Inr (price ord)" and "idx ord = i" and "passes (price ord)"
    and "price ord \<notin> placed"
  shows "first_rung rp passes idx (i # rest) placed ord"
proof -
  have "i # rest = [] @ idx ord # rest" using assms(2) by simp
  moreover have "\<forall>j \<in> set []. rp j \<noteq> Inr (price ord)" by simp
  ultimately show ?thesis unfolding first_rung_def using assms by blast
qed

lemma buy_loop_first:
  "buy_loop b mid su base idxs placed orders = Inr (placed', orders') \<Longrightarrow>
   ord \<in> set orders' \<Longrightarrow>
   ord \<in> set orders \<or>
   first_rung (\<lambda>j. round_price (base - of_int j * grid_spacing b) (price_precision b)
                  (grid_spacing b))
     (buy_passes b mid) (\<lambda>ord. - level ord) idxs placed ord"
proof (induction idxs arbitrary: placed orders)
  case Nil
  then show ?case by simp
next
  case (Cons i rest)
  from Cons.prems(1) show ?case
  proof (cases rule: buy_loop_Cons_cases)
    case (skip px)
    from Cons.IH[OF skip(3) Cons.prems(2)] skip(1,2) show ?thesis
      by (auto intro: first_rung_skip)
  next
    case (stop px)
    with Cons.prems(2) show ?thesis by simp
  next
    case (small px)
    from Cons.IH[OF small(7) Cons.prems(2)] small(1) show ?thesis
      by (auto intro: first_rung_insert)
  next
    case (emit px)
    from Cons.IH[OF emit(7) Cons.prems(2)]
    consider "ord \<in> set orders" | "ord = sized_order b BUY px (su / px) (- i)"
      | "first_rung (\<lambda>j. round_price (base - of_int j * grid_spacing b) (price_precision b)
                  (grid_spacing b))
          (buy_passes b mid) (\<lambda>ord. - level ord) rest (insert px placed) ord"
      by auto
    then show ?thesis
    proof cases
      case 1
      then show ?thesis by simp
    next
      case 2
      have "first_rung (\<lambda>j. round_price (base - of_int j * grid_spacing b) (price_precision b)
                  (grid_spacing b))
          (buy_passes b mid) (\<lambda>ord. - level ord) (i # rest) placed ord"
        by (rule first_rung_here) (use 2 emit(1,2,3) in simp_all)
      then show ?thesis by simp
    next
      case 3
      then show ?thesis using emit(1) by (auto intro: first_rung_insert)
    qed
  qed
qed

lemma sell_loop_first:
  "sell_loop b mid su base idxs placed orders = Inr (placed', orders') \<Longrightarrow>
   ord \<in> set orders' \<Longrightarrow>
   ord \<in> set orders \<or>
   first_rung (\<lambda>j. round_price (base + of_int j * grid_spacing b) (price_precision b)
                  (grid_spacing b))
     (sell_passes b mid) level idxs placed ord"
proof (induction idxs arbitrary: placed orders)
  case Nil
  then show ?case by simp
next
  case (Cons i rest)
  from Cons.prems(1) show ?case
  proof (cases rule: sell_loop_Cons_cases)
    case (skip px)
    from Cons.IH[OF skip(3) Cons.prems(2)] skip(1,2) show ?thesis
      by (auto intro: first_rung_skip)
  next
    case (stop px)
    with Cons.prems(2) show ?thesis by simp
  next
    case (small px)
    from Cons.IH[OF small(7) Cons.prems(2)] small(1) show ?thesis
      by (auto intro: first_rung_insert)
  next
    case (emit px)
    from Cons.IH[OF emit(7) Cons.prems(2)]
    consider "ord \<in> set orders" | "ord = sized_order b SELL px (su / px) i"
      | "first_rung (\<lambda>j. round_price (base + of_int j * grid_spacing b) (price_precision b)
                  (grid_spacing b))
          (sell_passes b mid) level rest (insert px placed) ord"
      by auto
    then show ?thesis
    proof cases
      case 1
      then show ?thesis by simp
    next
      case 2
      have "first_rung (\<lambda>j. round_price (base + of_int j * grid_spacing b) (price_precision b)
                  (grid_spacing b))
          (sell_passes b mid) level (i # rest) placed ord"
        by (rule first_rung_here) (use 2 emit(1,2,3) in simp_all)
      then show ?thesis by simp
    next
      case 3
      then show ?thesis using emit(1) by (auto intro: first_rung_insert)
    qed
  qed
qed

lemma upto_split_before:
  assumes "[0..m] = pre @ i # post" and "0 \<le> j" and "j < i"
  shows "j \<in> set pre"
proof -
  have srt: "sorted (pre @ i # post)" using assms(1) sorted_upto[of 0 m] by simp
  have "i \<in> set [0..m]" using assms(1) by simp
  then have "i \<le> m" by simp
  then have "j \<in> set [0..m]" using assms(2,3) by simp
  then have "j \<in> set pre \<or> j = i \<or> j \<in> set post" unfolding assms(1) by auto
  moreover have "j \<noteq> i" using assms(3) by simp
  moreover have "j \<notin> set post" using srt assms(3) by (auto simp: sorted_append)
  ultimately show ?thesis by blast
qed

lemma first_rung_upto:
  assumes "first_rung rp passes idx [0..m] placed ord"
  shows "rp (idx ord) = Inr (price ord) \<and> 0 \<le> idx ord \<and>
         (\<forall>j. 0 \<le> j \<and> j < idx ord \<longrightarrow> rp j \<noteq> Inr (price ord))"
proof -
  from assms obtain pre post where f:
    "[0..m] = pre @ idx ord # post" "rp (idx ord) = Inr (price ord)"
    "\<forall>j \<in> set pre. rp j \<noteq> Inr (price ord)"
    unfolding first_rung_def by blast
  have "idx ord \<in> set [0..m]" using f(1) by simp
  then have "0 \<le> idx ord" by simp
  moreover have "\<forall>j. 0 \<le> j \<and> j < idx ord \<longrightarrow> rp j \<noteq> Inr (price ord)"
    using upto_split_before[OF f(1)] f(3) by blast
  ultimately show ?thesis using f(2) by blast
qed

section \<open>The shape of a planner run\<close>

lemma generate_cases:
  assumes "generate_range_grid_orders b mid = Inr ladder"
  obtains
    (suppressed) "calculate_order_size b mid = 0" "ladder = []"
  | (planned) base_b base_s placed1 buys placed2 where
      "calculate_order_size b mid = order_size_usd b"
      "buy_base b mid = Inr base_b"
      "buy_loop b mid (order_size_usd b) base_b [0..grid_levels b - 1] {} [] = Inr (placed1, buys)"
      "sell_base b mid = Inr base_s"
      "sell_loop b mid (order_size_usd b) base_s [0..grid_levels b - 1] placed1 buys
         = Inr (placed2, ladder)"
proof (cases "calculate_order_size b mid = 0")
  case True
  with assms have "ladder = []" by (simp add: generate_range_grid_orders_def)
  with True show ?thesis by (rule suppressed)
next
  case False
  then have su: "calculate_order_size b mid = order_size_usd b"
    by (simp add: calculate_order_size_def Let_def split: if_splits)
  from assms False su show ?thesis
    by (auto simp: generate_range_grid_orders_def Let_def split: sum.splits prod.splits
        intro: planned)
qed

lemma generate_members:
  assumes "generate_range_grid_orders b mid = Inr ladder" and "ord \<in> set ladder"
  shows "emitted_ok b mid (order_size_usd b) ord \<and>
         first_rung (rung_price b mid (side ord))
           (case side ord of BUY \<Rightarrow> buy_passes b mid | SELL \<Rightarrow> sell_passes b mid)
           (\<lambda>ord. \<bar>level ord\<bar>) [0..grid_levels b - 1] {} ord"
  using assms(1)
proof (cases rule: generate_cases)
  case suppressed
  with assms(2) show ?thesis by simp
next
  case (planned base_b base_s placed1 buys placed2)
  have rpb: "rung_price b mid BUY =
      (\<lambda>j. round_price (base_b - of_int j * grid_spacing b) (price_precision b) (grid_spacing b))"
    using planned(2) by (simp add: rung_price_def fun_eq_iff)
  have rps: "rung_price b mid SELL =
      (\<lambda>j. round_price (base_s + of_int j * grid_spacing b) (price_precision b) (grid_spacing b))"
    using planned(4) by (simp add: rung_price_def fun_eq_iff)
  show ?thesis
  proof (cases "ord \<in> set buys")
    case True
    from buy_loop_emitted[OF planned(3) True]
    have sd: "side ord = BUY" and ok: "emitted_ok b mid (order_size_usd b) ord" by simp_all
    from buy_loop_first[OF planned(3) True]
    have fr: "first_rung (rung_price b mid BUY) (buy_passes b mid) (\<lambda>ord. - level ord)
        [0..grid_levels b - 1] {} ord"
      unfolding rpb by simp
    from first_rung_upto[OF fr] have "\<bar>level ord\<bar> = - level ord" by simp
    with fr have "first_rung (rung_price b mid BUY) (buy_passes b mid) (\<lambda>ord. \<bar>level ord\<bar>)
        [0..grid_levels b - 1] {} ord"
      unfolding first_rung_def by simp
    with sd ok show ?thesis by simp
  next
    case False
    from sell_loop_emitted[OF planned(5) assms(2)] False
    have sd: "side ord = SELL" and ok: "emitted_ok b mid (order_size_usd b) ord" by simp_all
    from sell_loop_first[OF planned(5) assms(2)] False
    have fr: "first_rung (rung_price b mid SELL) (sell_passes b mid) level
        [0..grid_levels b - 1] placed1 ord"
      unfolding rps by simp
    from first_rung_upto[OF fr] have "\<bar>level ord\<bar> = level ord" by simp
    with fr have "first_rung (rung_price b mid SELL) (sell_passes b mid) (\<lambda>ord. \<bar>level ord\<bar>)
        [0..grid_levels b - 1] {} ord"
      unfolding first_rung_def by auto
    with sd ok show ?thesis by simp
  qed
qed



lemma sell_loop_can_place:
  "sell_loop b mid su base idxs placed orders = Inr (placed', orders') \<Longrightarrow>
   ord \<in> set orders' \<Longrightarrow> ord \<in> set orders \<or> can_place_order b SELL mid"
proof (induction idxs arbitrary: placed orders)
  case Nil
  then show ?case by simp
next
  case (Cons i rest)
  from Cons.prems(1) show ?case
  proof (cases rule: sell_loop_Cons_cases)
    case (skip px)
    from Cons.IH[OF skip(3) Cons.prems(2)] show ?thesis .
  next
    case (stop px)
    with Cons.prems(2) show ?thesis by simp
  next
    case (small px)
    from Cons.IH[OF small(7) Cons.prems(2)] show ?thesis .
  next
    case (emit px)
    from Cons.IH[OF emit(7) Cons.prems(2)] emit(4) show ?thesis by auto
  qed
qed

lemma sell_needs_inventory:
  assumes "generate_range_grid_orders b mid = Inr ladder" and "ord \<in> set ladder"
    and "side ord = SELL"
  shows "0 < position_yes b"
  using assms(1)
proof (cases rule: generate_cases)
  case suppressed
  with assms(2) show ?thesis by simp
next
  case (planned base_b base_s placed1 buys placed2)
  have "ord \<notin> set buys" using buy_loop_emitted[OF planned(3), of ord] assms(3) by auto
  with sell_loop_can_place[OF planned(5) assms(2)] have "can_place_order b SELL mid" by simp
  then show ?thesis by (simp add: can_place_order_def split: if_splits)
qed

section \<open>The example of the specification, evaluated\<close>

lemma example_round_price:
  "round_price (1 / 2) 3 (1 / 50) = Inr (1 / 2)"
  "round_price (12 / 25) 3 (1 / 50) = Inr (12 / 25)"
  "round_price (23 / 50) 3 (1 / 50) = Inr (23 / 50)"
  "round_price (11 / 25) 3 (1 / 50) = Inr (11 / 25)"
  "round_price (13 / 25) 3 (1 / 50) = Inr (13 / 25)"
  "round_price (27 / 50) 3 (1 / 50) = Inr (27 / 50)"
  "round_price (14 / 25) 3 (1 / 50) = Inr (14 / 25)"
  by code_simp+

lemma example_sizes:
  "py_round_ndigits (125 / 6) 2 = 2083 / 100"
  "py_round_ndigits (500 / 23) 2 = 1087 / 50"
  "py_round_ndigits (250 / 11) 2 = 2273 / 100"
  "py_round_ndigits (250 / 13) 2 = 1923 / 100"
  "py_round_ndigits (500 / 27) 2 = 463 / 25"
  "py_round_ndigits (125 / 7) 2 = 893 / 50"
  by code_simp+

lemma example_upto: "[0..(2::int)] = [0, 1, 2]"
  by code_simp

lemma example_ladder_any:
  assumes "- 200 < h" and "h < 200"
  shows "generate_range_grid_orders (initial_bot\<lparr>position_yes := h\<rparr>) (1 / 2) =
           Inr (if 0 < h then buy_rungs @ sell_rungs else buy_rungs)"
  using assms
  by (simp add: generate_range_grid_orders_def calculate_order_size_def
      calculate_position_value_def can_place_order_def buy_base_def sell_base_def
      initial_bot_def example_round_price example_sizes example_upto py_truediv_def
      buy_rungs_def sell_rungs_def)

lemma holding_ladder:
  "generate_range_grid_orders holding_bot (1 / 2) = Inr (buy_rungs @ sell_rungs)"
  using example_ladder_any[of 10] by (simp add: holding_bot_def)






section \<open>Properties of the planned ladder\<close>

text \<open>
  C4. Every BUY order of a ladder that \<open>generate_range_grid_orders\<close> returns has its
  price in \<open>[range_min, mid_price)\<close>, every SELL order in \<open>(mid_price, range_max]\<close>.
  This holds for every configuration, so for every one the constructor accepts.
\<close>

theorem range_containment:
  assumes "generate_range_grid_orders b mid_price = Inr ladder" and "ord \<in> set ladder"
  shows "(side ord = BUY \<longrightarrow> range_min b \<le> price ord \<and> price ord < mid_price) \<and>
         (side ord = SELL \<longrightarrow> mid_price < price ord \<and> price ord \<le> range_max b)"
  using generate_members[OF assms]
  by (auto simp: emitted_ok_def buy_passes_def sell_passes_def)

text \<open>C4 at the bot holding 10 shares: the outermost BUY is at 0.44, the outermost SELL at 0.56.\<close>

theorem range_containment_witness:
  "generate_range_grid_orders holding_bot (1 / 2) = Inr (buy_rungs @ sell_rungs) \<and>
   range_min holding_bot \<le> 11 / 25 \<and> (11 / 25 :: rat) < 1 / 2 \<and>
   (1 / 2 :: rat) < 14 / 25 \<and> 14 / 25 \<le> range_max holding_bot"
proof -
  have m1: "\<lparr>side = BUY, price = 11 / 25, size_sh = 2273 / 100, level = - 2\<rparr>
      \<in> set (buy_rungs @ sell_rungs)"
    by (simp add: buy_rungs_def)
  have m2: "\<lparr>side = SELL, price = 14 / 25, size_sh = 893 / 50, level = 2\<rparr>
      \<in> set (buy_rungs @ sell_rungs)"
    by (simp add: sell_rungs_def)
  from range_containment[OF holding_ladder m1] range_containment[OF holding_ladder m2]
    holding_ladder
  show ?thesis by simp
qed



text \<open>
  C9, evaluated where the code breaks it. The size is compared with \<open>min_order_size\<close>
  and cut at \<open>max_order_size\<close> first and rounded to two decimals afterwards. With
  \<open>min_order_size = 20.833\<close> the BUY rung at 0.48 has the quotient 20.8333..., passes
  the check and is emitted with the size 20.83, below the minimum; with
  \<open>max_order_size = 20.826\<close> every rung is cut to 20.826 and emitted with the size
  20.83, above the maximum.
\<close>

theorem order_size_outside_bounds:
  "init_bot 3 (1 / 50) 10 100 (20833 / 1000) 10000 (3 / 10) (7 / 10) 3 ''0.02''
     = Inr tight_bot \<and>
   generate_range_grid_orders tight_bot (1 / 2) =
     Inr [\<lparr>side = BUY, price = 12 / 25, size_sh = 2083 / 100, level = 0\<rparr>,
          \<lparr>side = BUY, price = 23 / 50, size_sh = 1087 / 50, level = - 1\<rparr>,
          \<lparr>side = BUY, price = 11 / 25, size_sh = 2273 / 100, level = - 2\<rparr>] \<and>
   (2083 / 100 :: rat) < min_order_size tight_bot \<and>
   init_bot 3 (1 / 50) 10 100 (1 / 10) (20826 / 1000) (3 / 10) (7 / 10) 3 ''0.02''
     = Inr capped_bot \<and>
   generate_range_grid_orders capped_bot (1 / 2) =
     Inr [\<lparr>side = BUY, price = 12 / 25, size_sh = 2083 / 100, level = 0\<rparr>,
          \<lparr>side = BUY, price = 23 / 50, size_sh = 2083 / 100, level = - 1\<rparr>,
          \<lparr>side = BUY, price = 11 / 25, size_sh = 2083 / 100, level = - 2\<rparr>] \<and>
   max_order_size capped_bot < 2083 / 100"
  by code_simp

text \<open>
  C6 (as amended). With mid price 0.50, spacing 0.02, three levels, the range
  \<open>[0.30, 0.70]\<close> and the default values of the other parameters, the ladder has the BUY
  rungs 0.48, 0.46, 0.44 whenever the position value is inside the cap, and the SELL rungs
  0.52, 0.54, 0.56 exactly when shares are held; with no shares held there is no SELL rung.
\<close>

theorem example_ladder:
  assumes "- 200 < h" and "h < 200"
  shows "generate_range_grid_orders (initial_bot\<lparr>position_yes := h\<rparr>) (1 / 2) =
           Inr (if 0 < h then buy_rungs @ sell_rungs else buy_rungs)"
  using assms by (rule example_ladder_any)

text \<open>C6 (as amended) at 10 shares held.\<close>

theorem example_ladder_witness:
  "generate_range_grid_orders (initial_bot\<lparr>position_yes := 10\<rparr>) (1 / 2) =
     Inr (buy_rungs @ sell_rungs)"
  using example_ladder[of 10] by simp

text \<open>
  C6 as stated fails: the bot as constructed holds nothing, and for the parameters of the
  example its ladder consists of the three BUY rungs only.
\<close>

theorem example_ladder_counterexample:
  "init_bot 3 (1 / 50) 10 100 (1 / 10) 10000 (3 / 10) (7 / 10) 3 ''0.02'' = Inr initial_bot \<and>
   position_yes initial_bot = 0 \<and>
   generate_range_grid_orders initial_bot (1 / 2) =
     Inr [\<lparr>side = BUY, price = 12 / 25, size_sh = 2083 / 100, level = 0\<rparr>,
          \<lparr>side = BUY, price = 23 / 50, size_sh = 1087 / 50, level = - 1\<rparr>,
          \<lparr>side = BUY, price = 11 / 25, size_sh = 2273 / 100, level = - 2\<rparr>]"
  by code_simp

section \<open>The tracked position over the bot's operations\<close>

text \<open>
  C7 (as amended). \<open>position_yes\<close> starts at 0. Placing and cancelling orders leave it
  unchanged. Reconciliation adds the signed sizes of the vanished orders, plus for a BUY
  and minus for a SELL, with no floor at 0: it stays non-negative exactly when that sum
  does not take it below 0.
\<close>

theorem held_size_updates:
  assumes "distinct (map fst (active_orders b))"
    and "collect_open_ids open_orders {} = Inr ids"
  shows "position_yes (fst (place_order b sd px sz now r1 r2)) = position_yes b \<and>
         position_yes (cancel_order b order_id outcome) = position_yes b \<and>
         (\<exists>b' fills. update_active_orders b open_orders = Inr (b', fills) \<and>
            position_yes b' =
              position_yes b + sum_list (map signed_size (vanished ids (active_orders b))))"
proof -
  have "position_yes (fst (place_order b sd px sz now r1 r2)) = position_yes b"
    by (simp add: place_order_def split: option.splits)
  moreover have "position_yes (cancel_order b order_id outcome) = position_yes b"
    by (cases outcome) (simp_all add: cancel_order_def)
  moreover have "\<exists>b' fills. update_active_orders b open_orders = Inr (b', fills) \<and>
      position_yes b' =
        position_yes b + sum_list (map signed_size (vanished ids (active_orders b)))"
    using update_active_orders_closed[OF assms] by simp
  ultimately show ?thesis by blast
qed

text \<open>C7 (as amended) at the bot tracking one BUY of 20 shares that the exchange no longer reports.\<close>

theorem held_size_updates_witness:
  "position_yes (fst (place_order one_buy_bot SELL (13 / 25) 20 0 (Some ''s1'') None)) = 0 \<and>
   position_yes (cancel_order one_buy_bot ''o1'' Cancelled) = 0 \<and>
   (\<exists>b' fills. update_active_orders one_buy_bot [] = Inr (b', fills) \<and> position_yes b' = 20)"
  using held_size_updates[of one_buy_bot "[]" "{}" SELL "13 / 25" 20 0 "Some ''s1''" None
      "''o1''" Cancelled]
  by (simp add: one_buy_bot_def initial_bot_def vanished_def signed_size_def)

text \<open>
  C7 as stated fails: after the four cycles above, all made of the bot's own operations,
  the tracked position is 20.83 - 19.23 - 19.23 = -17.63.
\<close>

theorem held_size_counterexample:
  "init_bot 3 (1 / 50) 10 100 (1 / 10) 10000 (3 / 10) (7 / 10) 3 ''0.02'' = Inr initial_bot \<and>
   position_yes initial_bot = 0 \<and>
   position_yes after_cycle1 = 0 \<and>
   position_yes after_cycle2 = 2083 / 100 \<and>
   position_yes after_cycle3 = 8 / 5 \<and>
   position_yes after_cycle4 = - (1763 / 100)"
  by code_simp

end
